theory Spec2Isabelle
  imports Complex_Main "HOL-Library.Sublist"
begin

section \<open>JavaScript values\<close>

text \<open>
  The wallet transport resolves to a value of type \<^verbatim>\<open>any\<close>. The values are the data
  values of JSON together with \<^verbatim>\<open>undefined\<close>. Numbers are the integers (a JSON-RPC error
  code and the request id are integers), which a double holds exactly up to \<open>2 ^ 53\<close> in
  magnitude; fractional numbers and larger ones are outside the model.
  An object is an association list; a property lookup takes the first binding of the key.
\<close>

datatype jsval =
    JUndefined
  | JNull
  | JBool bool
  | JNum int
  | JStr string
  | JArr "jsval list"
  | JObj "(string \<times> jsval) list"

text \<open>\<^verbatim>\<open>typeof v\<close>. Note \<^verbatim>\<open>typeof null === 'object'\<close>, and an array is an object too.\<close>

fun js_typeof :: "jsval \<Rightarrow> string" where
  "js_typeof JUndefined = ''undefined''"
| "js_typeof JNull = ''object''"
| "js_typeof (JBool b) = ''boolean''"
| "js_typeof (JNum n) = ''number''"
| "js_typeof (JStr s) = ''string''"
| "js_typeof (JArr xs) = ''object''"
| "js_typeof (JObj fs) = ''object''"

text \<open>The truth value of \<^verbatim>\<open>if (v)\<close>.\<close>

fun truthy :: "jsval \<Rightarrow> bool" where
  "truthy JUndefined = False"
| "truthy JNull = False"
| "truthy (JBool b) = b"
| "truthy (JNum n) = (n \<noteq> 0)"
| "truthy (JStr s) = (s \<noteq> [])"
| "truthy (JArr xs) = True"
| "truthy (JObj fs) = True"

text \<open>Reading a property of \<^verbatim>\<open>null\<close> or \<^verbatim>\<open>undefined\<close> throws a TypeError.\<close>

fun nullish :: "jsval \<Rightarrow> bool" where
  "nullish JUndefined = True"
| "nullish JNull = True"
| "nullish v = False"

text \<open>
  \<^verbatim>\<open>v.k\<close> for a value that is not nullish, and for the property names this module reads
  (\<^verbatim>\<open>error\<close>, \<^verbatim>\<open>data\<close>, \<^verbatim>\<open>code\<close>, \<^verbatim>\<open>message\<close>, \<^verbatim>\<open>name\<close>, \<^verbatim>\<open>error_message\<close>, \<^verbatim>\<open>error_type\<close>,
  \<^verbatim>\<open>type\<close>, \<^verbatim>\<open>result\<close>, \<^verbatim>\<open>chain_id\<close>): none of them is a property of a primitive's wrapper or
  of an array, so only an object can hold one.
\<close>

fun get :: "jsval \<Rightarrow> string \<Rightarrow> jsval" where
  "get (JObj fs) k = (case map_of fs k of None \<Rightarrow> JUndefined | Some v \<Rightarrow> v)"
| "get v k = JUndefined"

text \<open>\<^verbatim>\<open>Array.isArray(v)\<close> and \<^verbatim>\<open>v[0]\<close> of an array (\<^verbatim>\<open>undefined\<close> when it is empty).\<close>

fun isArray :: "jsval \<Rightarrow> bool" where
  "isArray (JArr xs) = True"
| "isArray v = False"

fun index0 :: "jsval \<Rightarrow> jsval" where
  "index0 (JArr (x # xs)) = x"
| "index0 v = JUndefined"

subsection \<open>Conversion to a string\<close>

text \<open>
  A template literal converts each substituted value with ToString. An integer prints in
  decimal. An array prints its elements separated by commas, \<^verbatim>\<open>null\<close> and \<^verbatim>\<open>undefined\<close>
  elements as the empty string. A plain object prints as \<^verbatim>\<open>[object Object]\<close> (objects that
  carry a \<^verbatim>\<open>toString\<close> or \<^verbatim>\<open>valueOf\<close> property of their own are outside the model).
\<close>

definition digit_char :: "nat \<Rightarrow> char" where
  "digit_char n = ''0123456789'' ! (n mod 10)"

fun string_of_nat :: "nat \<Rightarrow> string" where
  "string_of_nat n =
     (if n < 10 then [digit_char n] else string_of_nat (n div 10) @ [digit_char n])"

definition string_of_int :: "int \<Rightarrow> string" where
  "string_of_int i = (if i < 0 then CHR ''-'' # string_of_nat (nat (- i)) else string_of_nat (nat i))"

fun join_comma :: "string list \<Rightarrow> string" where
  "join_comma [] = []"
| "join_comma [s] = s"
| "join_comma (s # t # ss) = s @ '','' @ join_comma (t # ss)"

fun js_to_string :: "jsval \<Rightarrow> string" where
  "js_to_string JUndefined = ''undefined''"
| "js_to_string JNull = ''null''"
| "js_to_string (JBool b) = (if b then ''true'' else ''false'')"
| "js_to_string (JNum n) = string_of_int n"
| "js_to_string (JStr s) = s"
| "js_to_string (JArr xs) =
     join_comma (map (\<lambda>x. if nullish x then [] else js_to_string x) xs)"
| "js_to_string (JObj fs) = ''[object Object]''"

text \<open>\<^verbatim>\<open>s.includes(sub)\<close>: \<^verbatim>\<open>sub\<close> occurs in \<^verbatim>\<open>s\<close> as a contiguous substring.\<close>

fun str_includes :: "string \<Rightarrow> string \<Rightarrow> bool" where
  "str_includes [] sub = (sub = [])"
| "str_includes (c # cs) sub = (prefix sub (c # cs) \<or> str_includes cs sub)"

section \<open>Errors\<close>

text \<open>
  The values the module throws. \<^verbatim>\<open>TypedError\<close> is imported from \<^verbatim>\<open>../utils/errors\<close>.

  Modelled from the spec: the class \<^verbatim>\<open>TypedError\<close> is not among the source files; the
  spec describes an error carrying a message and a type discriminator, so the constructor
  keeps the two arguments it is given. \<^verbatim>\<open>JsError m\<close> is \<^verbatim>\<open>new Error(m)\<close>, \<^verbatim>\<open>JsTypeError\<close> the
  TypeError of the language runtime, and \<^verbatim>\<open>Thrown v\<close> any other value a transport rejects
  with.
\<close>

datatype exn =
    TypedError jsval jsval
  | JsError string
  | JsTypeError
  | Thrown jsval

text \<open>
  \<^verbatim>\<open>error.type\<close> in the catch clause (line 452). An \<^verbatim>\<open>Error\<close> and a \<^verbatim>\<open>TypeError\<close> have no such
  property. Reading it from a thrown \<^verbatim>\<open>null\<close> or \<^verbatim>\<open>undefined\<close> throws in turn.
\<close>

fun exn_type :: "exn \<Rightarrow> exn + jsval" where
  "exn_type (TypedError m t) = Inr t"
| "exn_type (JsError m) = Inr JUndefined"
| "exn_type JsTypeError = Inr JUndefined"
| "exn_type (Thrown v) = (if nullish v then Inl JsTypeError else Inr (get v ''type''))"

section \<open>The error classifier (lines 426 to 445)\<close>

text \<open>
  The four branches of the \<^verbatim>\<open>else if ((response as any).error)\<close> block, named as the
  spec's taxonomy names them, and the error each one throws.
\<close>

datatype ClassifiedError =
    LegacyTyped jsval jsval
  | StructuredParsed jsval
  | Timeout string
  | Generic string jsval

text \<open>
  \<^verbatim>\<open>errorMessage\<close> of line 437: \<^verbatim>\<open>`[${error.code}] ${error.message}: ${error.data}`\<close>.
\<close>

definition errorMessage :: "jsval \<Rightarrow> string" where
  "errorMessage error =
     ''['' @ js_to_string (get error ''code'') @ ''] '' @ js_to_string (get error ''message'')
       @ '': '' @ js_to_string (get error ''data'')"

text \<open>
  \<^verbatim>\<open>error\<close> is truthy here, so \<^verbatim>\<open>error.data\<close> does not throw. \<^verbatim>\<open>typeof error.data === 'object'\<close>
  holds for \<^verbatim>\<open>null\<close> as well: then \<^verbatim>\<open>error.data.error_message\<close> throws a TypeError and no
  branch is reached.
\<close>

definition classify :: "jsval \<Rightarrow> exn + ClassifiedError" where
  "classify error =
     (let data = get error ''data'' in
      if js_typeof data = ''object'' then
        (if nullish data then Inl JsTypeError
         else if js_typeof (get data ''error_message'') = ''string''
                 \<and> js_typeof (get data ''error_type'') = ''string''
         then Inr (LegacyTyped (get data ''error_message'') (get data ''error_type''))
         else Inr (StructuredParsed data))
      else
        (if data = JStr ''Timeout'' \<or> str_includes (errorMessage error) ''Timeout error''
              \<or> str_includes (errorMessage error) ''query has timed out''
         then Inr (Timeout (errorMessage error))
         else Inr (Generic (errorMessage error) (get error ''name''))))"

text \<open>
  What each branch throws. \<^verbatim>\<open>parseRpcError\<close> is imported from \<^verbatim>\<open>../utils/rpc_errors\<close>, which
  is not among the source files: it is a parameter.
\<close>

fun thrown :: "(jsval \<Rightarrow> exn) \<Rightarrow> ClassifiedError \<Rightarrow> exn" where
  "thrown parse (LegacyTyped m t) = TypedError m t"
| "thrown parse (StructuredParsed data) = parse data"
| "thrown parse (Timeout m) = TypedError (JStr m) (JStr ''TimeoutError'')"
| "thrown parse (Generic m n) = TypedError (JStr m) n"

declare string_of_nat.simps [simp del]

section \<open>Requests, the wallet transport and the provider object\<close>

text \<open>The interface \<^verbatim>\<open>RequestParams\<close> (lines 48 to 53).\<close>

record RequestParams =
  jsonrpc :: string
  id' :: nat
  method' :: string
  params' :: jsval

text \<open>
  The interface \<^verbatim>\<open>WalletProvider\<close> (lines 55 to 59). A promise either resolves (\<open>Inr\<close>) or
  rejects (\<open>Inl\<close>). Every request carries an id of its own, so a reply may depend on the
  attempt it answers. \<^verbatim>\<open>on\<close> registers a listener and may throw.
\<close>

record WalletProvider =
  getAccount :: "exn + string"
  request :: "RequestParams \<Rightarrow> exn + jsval"
  on :: "string \<Rightarrow> exn option"

text \<open>The private fields of the class \<^verbatim>\<open>WalletRpcProvider\<close> (lines 66 to 71).\<close>

record WalletRpcProvider =
  priv_provider :: "WalletProvider option"
  priv_network :: jsval
  priv_account :: string
  priv_pubKeys :: "string list"

subsection \<open>The module state\<close>

text \<open>
  \<^verbatim>\<open>let _nextId = 123\<close> (line 46) is the one variable of the module, shared by every
  instance. \<open>issued\<close> is a history of the ids handed out so far, oldest first; the code
  does not keep it.
\<close>

record world =
  nextId :: nat
  issued :: "nat list"

definition initial_world :: world where
  "initial_world = \<lparr>nextId = 123, issued = []\<rparr>"

text \<open>
  \<^verbatim>\<open>_nextId++\<close> (line 419): the value before the increment, and the state after it. The
  counter is a double: below \<open>2 ^ 53\<close> the increment is exact, at \<open>2 ^ 53\<close> the sum rounds
  back to \<open>2 ^ 53\<close>. Larger values are never reached from 123.
\<close>

definition postinc_nextId :: "world \<Rightarrow> nat \<times> world" where
  "postinc_nextId w =
     (nextId w,
      \<lparr>nextId = (if nextId w < 2 ^ 53 then nextId w + 1 else nextId w),
       issued = issued w @ [nextId w]\<rparr>)"

subsection \<open>Effects of a call\<close>

text \<open>
  What one call does besides returning: the requests it hands to the transport, the waits
  between attempts (milliseconds) and the \<^verbatim>\<open>console.warn\<close> lines, in the order they happen.
\<close>

datatype event =
    Sent RequestParams
  | Slept rat
  | Warned string jsval

text \<open>
  An asynchronous computation from a module state: \<open>None\<close> when it does not settle within
  the nesting allowed (see \<open>sendJsonRpc\<close> below), else the settled promise, the events of
  this call and the module state after it.
\<close>

type_synonym 'a io = "world \<Rightarrow> ((exn + 'a) \<times> event list \<times> world) option"

text \<open>
  What the module takes from outside the source files:
  \<^item> \<open>parseRpcError\<close>, imported from \<^verbatim>\<open>../utils/rpc_errors\<close>;
  \<^item> \<open>onExhausted\<close>, the value \<^verbatim>\<open>exponentialBackoff\<close> resolves to when no attempt is left;
  \<^item> \<open>NEAR_NO_LOGS\<close>, whether \<^verbatim>\<open>process.env['NEAR_NO_LOGS']\<close> is set;
  \<^item> \<open>others\<close>, what the other calls in flight do to the module state while this call is
    suspended at an \<^verbatim>\<open>await\<close> (the identity when there is none).
\<close>

record deps =
  parseRpcError :: "jsval \<Rightarrow> exn"
  onExhausted :: jsval
  NEAR_NO_LOGS :: bool
  others :: "world \<Rightarrow> world"

section \<open>The request pipeline\<close>

text \<open>Lines 36 to 43. The factor 1.5 is the fraction \<open>3 / 2\<close>.\<close>

definition REQUEST_RETRY_NUMBER :: nat where
  "REQUEST_RETRY_NUMBER = 12"

definition REQUEST_RETRY_WAIT :: rat where
  "REQUEST_RETRY_WAIT = 500"

definition REQUEST_RETRY_WAIT_BACKOFF :: rat where
  "REQUEST_RETRY_WAIT_BACKOFF = 3 / 2"

subsection \<open>One attempt: the function handed to the retry loop (lines 415 to 460)\<close>

text \<open>
  The body of the \<^verbatim>\<open>try\<close> block; \<open>envelope\<close> is the object literal of lines 416 to 421.
  \<open>txStatusString\<close> stands for \<^verbatim>\<open>this.txStatusString\<close>, which calls \<^verbatim>\<open>sendJsonRpc\<close> again; the
  knot is tied in \<open>sendJsonRpc\<close> below. The id is taken and the request handed over in one
  synchronous step; the call is then suspended until the transport settles, and the other
  calls in flight run meanwhile. Wallet events are taken not to arrive while a call is in
  flight, so \<^verbatim>\<open>this._account\<close> is read from the instance the call started with.
\<close>

definition envelope :: "nat \<Rightarrow> string \<Rightarrow> jsval \<Rightarrow> RequestParams" where
  "envelope i method params = \<lparr>jsonrpc = ''2.0'', id' = i, method' = method, params' = params\<rparr>"

definition tryBody ::
  "deps \<Rightarrow> (jsval \<Rightarrow> string \<Rightarrow> jsval io) \<Rightarrow> WalletRpcProvider \<Rightarrow> string \<Rightarrow> jsval \<Rightarrow> jsval io"
where
  "tryBody deps txStatusString this method params w =
     (case priv_provider this of
        None \<Rightarrow> Some (Inl (JsError ''Provider not exist''), [], w)
      | Some p \<Rightarrow>
          (let req = envelope (fst (postinc_nextId w)) method params;
               w1 = others deps (snd (postinc_nextId w))
           in case request p req of
                Inl e \<Rightarrow> Some (Inl e, [Sent req], w1)
              | Inr response \<Rightarrow>
                  if isArray response then
                    (case txStatusString (index0 response) (priv_account this) w1 of
                       None \<Rightarrow> None
                     | Some (Inl e, evs, w2) \<Rightarrow> Some (Inl e, Sent req # evs, w2)
                     | Some (Inr txStatus, evs, w2) \<Rightarrow>
                         Some (Inr (JObj [(''reesult'', txStatus)]), Sent req # evs, w2))
                  else if nullish response then Some (Inl JsTypeError, [Sent req], w1)
                  else if truthy (get response ''error'') then
                    (case classify (get response ''error'') of
                       Inl e \<Rightarrow> Some (Inl e, [Sent req], w1)
                     | Inr c \<Rightarrow> Some (Inl (thrown (parseRpcError deps) c), [Sent req], w1))
                  else Some (Inr (JObj [(''result'', response)]), [Sent req], w1)))"

text \<open>
  The \<^verbatim>\<open>catch\<close> clause (lines 451 to 459): an error whose \<^verbatim>\<open>type\<close> is \<^verbatim>\<open>'TimeoutError'\<close> becomes
  the result \<^verbatim>\<open>null\<close>, with a warning unless logs are off; every other error is thrown again.
\<close>

definition catchClause :: "deps \<Rightarrow> string \<Rightarrow> jsval \<Rightarrow> exn \<Rightarrow> (exn + jsval) \<times> event list" where
  "catchClause deps method params error =
     (case exn_type error of
        Inl e \<Rightarrow> (Inl e, [])
      | Inr t \<Rightarrow>
          if t = JStr ''TimeoutError'' then
            (Inr JNull,
             if NEAR_NO_LOGS deps then []
             else [Warned (''Retrying request to '' @ method @ '' as it has timed out'') params])
          else (Inl error, []))"

definition getResult ::
  "deps \<Rightarrow> (jsval \<Rightarrow> string \<Rightarrow> jsval io) \<Rightarrow> WalletRpcProvider \<Rightarrow> string \<Rightarrow> jsval \<Rightarrow> jsval io"
where
  "getResult deps txStatusString this method params w =
     (case tryBody deps txStatusString this method params w of
        None \<Rightarrow> None
      | Some (Inr v, evs, w1) \<Rightarrow> Some (Inr v, evs, w1)
      | Some (Inl error, evs, w1) \<Rightarrow>
          Some (fst (catchClause deps method params error),
                evs @ snd (catchClause deps method params error), w1))"

subsection \<open>The retry loop\<close>

text \<open>
  Modelled from the spec: \<^verbatim>\<open>exponentialBackoff\<close> is imported from
  \<^verbatim>\<open>../utils/exponential-backoff\<close>, which is not among the source files. By sections 4.2
  and 4.4 of the spec the loop makes at most \<open>retryNumber\<close> attempts; an attempt that yields
  \<^verbatim>\<open>null\<close> asks for a retry; the loop waits before each retry, \<open>startWaitTime\<close> the first time
  and \<open>waitBackoff\<close> times longer each time after; any other result ends the loop, and an
  error thrown by an attempt leaves it at once. What the loop resolves to after the last
  attempt is \<open>onExhausted\<close>.
\<close>

fun exponentialBackoff :: "deps \<Rightarrow> rat \<Rightarrow> nat \<Rightarrow> rat \<Rightarrow> jsval io \<Rightarrow> jsval io" where
  "exponentialBackoff deps waitTime 0 waitBackoff attempt w =
     Some (Inr (onExhausted deps), [], w)"
| "exponentialBackoff deps waitTime (Suc n) waitBackoff attempt w =
     (case attempt w of
        None \<Rightarrow> None
      | Some (Inl e, evs, w1) \<Rightarrow> Some (Inl e, evs, w1)
      | Some (Inr result, evs, w1) \<Rightarrow>
          if result = JNull then
            (if n = 0 then Some (Inr (onExhausted deps), evs, w1)
             else
               (case exponentialBackoff deps (waitTime * waitBackoff) n waitBackoff attempt
                       (others deps w1) of
                  None \<Rightarrow> None
                | Some (r, evs2, w2) \<Rightarrow> Some (r, evs @ Slept waitTime # evs2, w2)))
          else Some (Inr result, evs, w1))"

subsection \<open>sendJsonRpc (lines 413 to 471)\<close>

text \<open>
  \<^verbatim>\<open>const { result } = response\<close> throws a TypeError when \<^verbatim>\<open>response\<close> is \<^verbatim>\<open>null\<close> or
  \<^verbatim>\<open>undefined\<close>. The message of line 469 prints \<^verbatim>\<open>REQUEST_RETRY_NUMBER\<close> in decimal.
\<close>

definition sendJsonRpc_body ::
  "deps \<Rightarrow> (jsval \<Rightarrow> string \<Rightarrow> jsval io) \<Rightarrow> WalletRpcProvider \<Rightarrow> string \<Rightarrow> jsval \<Rightarrow> jsval io"
where
  "sendJsonRpc_body deps txStatusString this method params w =
     (case exponentialBackoff deps REQUEST_RETRY_WAIT REQUEST_RETRY_NUMBER
             REQUEST_RETRY_WAIT_BACKOFF (getResult deps txStatusString this method params) w of
        None \<Rightarrow> None
      | Some (Inl e, evs, w1) \<Rightarrow> Some (Inl e, evs, w1)
      | Some (Inr response, evs, w1) \<Rightarrow>
          if nullish response then Some (Inl JsTypeError, evs, w1)
          else if js_typeof (get response ''result'') = ''undefined'' then
            Some (Inl (TypedError
                         (JStr (''Exceeded '' @ js_to_string (JNum (int REQUEST_RETRY_NUMBER))
                                @ '' attempts for request to '' @ method @ ''.''))
                         (JStr ''RetriesExceeded'')),
                  evs, w1)
          else Some (Inr (get response ''result''), evs, w1))"

text \<open>
  \<^verbatim>\<open>txStatusString\<close> (lines 197 to 199), given the \<^verbatim>\<open>sendJsonRpc\<close> it calls.
\<close>

definition txStatusString :: "(string \<Rightarrow> jsval \<Rightarrow> jsval io) \<Rightarrow> jsval \<Rightarrow> string \<Rightarrow> jsval io" where
  "txStatusString send txHash accountId = send ''tx'' (JArr [txHash, JStr accountId])"

text \<open>
  An array reply makes \<^verbatim>\<open>sendJsonRpc\<close> call itself through \<^verbatim>\<open>txStatusString\<close>, and the reply
  to that call may be an array again. The first argument bounds how deep the calls may
  nest: \<open>sendJsonRpc d\<close> is \<open>None\<close> when a secondary lookup is needed at depth \<open>d\<close>.
\<close>

primrec sendJsonRpc :: "nat \<Rightarrow> deps \<Rightarrow> WalletRpcProvider \<Rightarrow> string \<Rightarrow> jsval \<Rightarrow> jsval io" where
  "sendJsonRpc 0 = (\<lambda>deps this. sendJsonRpc_body deps (\<lambda>txHash accountId w. None) this)"
| "sendJsonRpc (Suc d) =
     (\<lambda>deps this. sendJsonRpc_body deps (txStatusString (sendJsonRpc d deps this)) this)"

subsection \<open>The rest of the class\<close>

text \<open>\<^verbatim>\<open>status\<close> (lines 149 to 151).\<close>

definition status :: "nat \<Rightarrow> deps \<Rightarrow> WalletRpcProvider \<Rightarrow> jsval io" where
  "status d deps this = sendJsonRpc d deps this ''status'' (JArr [])"

text \<open>
  The constructor (lines 105 to 111). At run time the argument may be \<^verbatim>\<open>null\<close>: then
  \<^verbatim>\<open>this._provider.on\<close> throws a TypeError and no instance is made. \<^verbatim>\<open>this.init()\<close> is started
  but not awaited; it is the operation \<open>Init\<close> below.
\<close>

definition new_WalletRpcProvider :: "WalletProvider option \<Rightarrow> exn + WalletRpcProvider" where
  "new_WalletRpcProvider provider =
     (case provider of
        None \<Rightarrow> Inl JsTypeError
      | Some p \<Rightarrow>
          (case on p ''chainChanged'' of
             Some e \<Rightarrow> Inl e
           | None \<Rightarrow>
               (case on p ''accountsChanged'' of
                  Some e \<Rightarrow> Inl e
                | None \<Rightarrow>
                    Inr \<lparr>priv_provider = provider, priv_network = JStr [], priv_account = [],
                         priv_pubKeys = []\<rparr>)))"

text \<open>
  \<^verbatim>\<open>init\<close> (lines 113 to 119): the instance after it, whether it completes or throws.
\<close>

definition init ::
  "nat \<Rightarrow> deps \<Rightarrow> WalletRpcProvider \<Rightarrow> world
     \<Rightarrow> ((exn + unit) \<times> event list \<times> WalletRpcProvider \<times> world) option"
where
  "init d deps this w =
     (case priv_provider this of
        None \<Rightarrow> Some (Inr (), [], this, w)
      | Some p \<Rightarrow>
          (case status d deps this w of
             None \<Rightarrow> None
           | Some (Inl e, evs, w1) \<Rightarrow> Some (Inl e, evs, this, w1)
           | Some (Inr r, evs, w1) \<Rightarrow>
               if nullish r then Some (Inl JsTypeError, evs, this, w1)
               else
                 (case getAccount p of
                    Inl e \<Rightarrow> Some (Inl e, evs, this\<lparr>priv_network := get r ''chain_id''\<rparr>, w1)
                  | Inr a \<Rightarrow>
                      Some (Inr (), evs,
                            this\<lparr>priv_network := get r ''chain_id'', priv_account := a\<rparr>, w1))))"

text \<open>\<^verbatim>\<open>updateNetwork\<close> and \<^verbatim>\<open>updateAccount\<close> (lines 124 to 134).\<close>

definition updateNetwork :: "WalletRpcProvider \<Rightarrow> jsval \<Rightarrow> WalletRpcProvider" where
  "updateNetwork this chainId = this\<lparr>priv_network := chainId\<rparr>"

definition updateAccount :: "WalletRpcProvider \<Rightarrow> string \<Rightarrow> string list \<Rightarrow> WalletRpcProvider" where
  "updateAccount this address pubKeys = this\<lparr>priv_account := address, priv_pubKeys := pubKeys\<rparr>"

text \<open>
  Everything that can happen to an instance after its construction: \<^verbatim>\<open>init\<close>, the two
  wallet events, and a call of \<^verbatim>\<open>sendJsonRpc\<close>, which every public method of the class (lines
  149 to 405) goes through. The method \<^verbatim>\<open>on\<close> (lines 139 to 143) hands a listener to the
  wallet and leaves the instance as it is.
\<close>

datatype call =
    Init
  | UpdateNetwork jsval
  | UpdateAccount string "string list"
  | On string
  | SendJsonRpc string jsval

fun step ::
  "nat \<Rightarrow> deps \<Rightarrow> call \<Rightarrow> WalletRpcProvider \<times> world \<Rightarrow> (WalletRpcProvider \<times> world) option"
where
  "step d deps Init (this, w) =
     (case init d deps this w of None \<Rightarrow> None | Some (r, evs, this1, w1) \<Rightarrow> Some (this1, w1))"
| "step d deps (UpdateNetwork chainId) (this, w) = Some (updateNetwork this chainId, w)"
| "step d deps (UpdateAccount address pubKeys) (this, w) =
     Some (updateAccount this address pubKeys, w)"
| "step d deps (On message) (this, w) = Some (this, w)"
| "step d deps (SendJsonRpc method params) (this, w) =
     (case sendJsonRpc d deps this method params w of
        None \<Rightarrow> None
      | Some (r, evs, w1) \<Rightarrow> Some (this, w1))"

fun run ::
  "nat \<Rightarrow> deps \<Rightarrow> call list \<Rightarrow> WalletRpcProvider \<times> world \<Rightarrow> (WalletRpcProvider \<times> world) option"
where
  "run d deps [] s = Some s"
| "run d deps (c # cs) s = (case step d deps c s of None \<Rightarrow> None | Some s1 \<Rightarrow> run d deps cs s1)"

section \<open>Notions the properties are stated with\<close>

text \<open>The requests among the events of a call, and their ids.\<close>

fun sent :: "event list \<Rightarrow> RequestParams list" where
  "sent [] = []"
| "sent (Sent r # evs) = r # sent evs"
| "sent (Slept t # evs) = sent evs"
| "sent (Warned m v # evs) = sent evs"

definition ids :: "event list \<Rightarrow> nat list" where
  "ids evs = map id' (sent evs)"

text \<open>
  The module has one write to \<^verbatim>\<open>_nextId\<close>, the increment of line 419. So whatever the other
  calls in flight do while this one is suspended, they do to the module state by taking
  ids, some number of times.
\<close>

definition others_take_ids :: "deps \<Rightarrow> bool" where
  "others_take_ids deps = (\<forall>w. \<exists>k. others deps w = ((\<lambda>v. snd (postinc_nextId v)) ^^ k) w)"

text \<open>
  A reply to which the classifier answers \<open>Timeout\<close>: an object, not an array, whose
  \<^verbatim>\<open>error\<close> is truthy and falls into the branch of line 441.
\<close>

definition timeout_reply :: "jsval \<Rightarrow> bool" where
  "timeout_reply response =
     (\<not> isArray response \<and> \<not> nullish response \<and> truthy (get response ''error'')
      \<and> classify (get response ''error'') = Inr (Timeout (errorMessage (get response ''error''))))"

section \<open>Concrete inputs\<close>

definition timeout_payload :: jsval where
  "timeout_payload =
     JObj [(''code'', JNum (- 32000)), (''message'', JStr ''timeout''), (''data'', JStr ''Timeout'')]"

definition legacy_payload :: jsval where
  "legacy_payload =
     JObj [(''code'', JNum (- 32000)), (''message'', JStr ''Server error''),
           (''data'', JObj [(''error_message'', JStr ''account does not exist''),
                           (''error_type'', JStr ''AccountDoesNotExist'')])]"

definition legacy_timeout_payload :: jsval where
  "legacy_timeout_payload =
     JObj [(''code'', JNum (- 32000)), (''message'', JStr ''Server error''),
           (''data'', JObj [(''error_message'', JStr ''took too long''),
                           (''error_type'', JStr ''TimeoutError'')])]"

definition null_data_payload :: jsval where
  "null_data_payload =
     JObj [(''code'', JNum (- 32000)), (''message'', JStr ''Server error''), (''data'', JNull)]"

definition status_reply :: jsval where
  "status_reply = JObj [(''result'', JObj [(''chain_id'', JStr ''testnet'')])]"

definition parse0 :: "jsval \<Rightarrow> exn" where
  "parse0 data = TypedError (JStr ''server error'') (JStr ''ServerError'')"

definition deps0 :: deps where
  "deps0 = \<lparr>parseRpcError = parse0, onExhausted = JObj [], NEAR_NO_LOGS = False,
            others = (\<lambda>w. w)\<rparr>"

text \<open>
  The same, with a retry loop that resolves to \<^verbatim>\<open>null\<close> once its attempts are used up:
  \<^verbatim>\<open>null\<close> is what every timed-out attempt hands the loop (line 456).
\<close>

definition deps_null :: deps where
  "deps_null = deps0\<lparr>onExhausted := JNull\<rparr>"

text \<open>While the call is suspended, one other call takes an id.\<close>

definition deps1 :: deps where
  "deps1 = \<lparr>parseRpcError = parse0, onExhausted = JObj [], NEAR_NO_LOGS = True,
            others = (\<lambda>w. snd (postinc_nextId w))\<rparr>"

definition wallet_of :: "(RequestParams \<Rightarrow> exn + jsval) \<Rightarrow> WalletProvider" where
  "wallet_of f = \<lparr>getAccount = Inr ''alice.testnet'', request = f, on = (\<lambda>message. None)\<rparr>"

definition provider_of :: "(RequestParams \<Rightarrow> exn + jsval) \<Rightarrow> WalletRpcProvider" where
  "provider_of f =
     \<lparr>priv_provider = Some (wallet_of f), priv_network = JStr ''testnet'',
      priv_account = ''alice.testnet'', priv_pubKeys = []\<rparr>"

text \<open>Transports: one reply to everything; an array first and a status to the lookup;
  a legacy error of type \<^verbatim>\<open>TimeoutError\<close> to request 123 and a result afterwards.\<close>

definition always :: "jsval \<Rightarrow> RequestParams \<Rightarrow> exn + jsval" where
  "always reply r = Inr reply"

definition hash_then_status :: "RequestParams \<Rightarrow> exn + jsval" where
  "hash_then_status r =
     (if method' r = ''tx'' then Inr (JObj [(''status'', JStr ''SuccessValue'')])
      else Inr (JArr [JStr ''H9k2'']))"

text \<open>The call \<^verbatim>\<open>status\<close> against a transport that answers every request with a timeout.\<close>

definition always_timeout_run :: "((exn + jsval) \<times> event list \<times> world) option" where
  "always_timeout_run =
     sendJsonRpc 0 deps_null (provider_of (always (JObj [(''error'', timeout_payload)])))
       ''status'' (JArr []) initial_world"

definition legacy_timeout_once :: "RequestParams \<Rightarrow> exn + jsval" where
  "legacy_timeout_once r =
     (if id' r = 123 then Inr (JObj [(''error'', legacy_timeout_payload)])
      else Inr (JObj [(''chain_id'', JStr ''testnet'')]))"

text \<open>
  What a computation does to the ids, between the module states \<open>w\<close> before and \<open>w1\<close>
  after it, while the counter stays below \<open>2 ^ 53\<close>: the ids handed out in between, to
  whichever call, are the consecutive numbers from the old counter up to the new one, each
  once, and the ids of the requests of this call are among them, in the order sent.
\<close>

definition fresh_ids :: "world \<Rightarrow> event list \<Rightarrow> world \<Rightarrow> bool" where
  "fresh_ids w evs w1 =
     (nextId w \<le> nextId w1
      \<and> (nextId w1 < 2 ^ 53 \<longrightarrow>
           issued w1 = issued w @ [nextId w ..< nextId w1]
           \<and> subseq (ids evs) [nextId w ..< nextId w1]))"

text \<open>
  The history of a process is in order: the ids handed out so far are strictly increasing
  and all below the counter. It is so when the module is loaded.
\<close>

definition history_ok :: "world \<Rightarrow> bool" where
  "history_ok w = (sorted_wrt (<) (issued w) \<and> (\<forall>i \<in> set (issued w). i < nextId w))"

section \<open>Facts about one attempt and about the loop\<close>

lemma fst_postinc_nextId [simp]: "fst (postinc_nextId w) = nextId w"
  by (simp add: postinc_nextId_def)

lemma retry_number_pos: "0 < REQUEST_RETRY_NUMBER"
  by (simp add: REQUEST_RETRY_NUMBER_def)

lemma string_of_int_32000: "string_of_int (- 32000) = ''-32000''"
  by (simp add: string_of_int_def string_of_nat.simps digit_char_def)

lemma string_of_int_12: "string_of_int 12 = ''12''"
  by (simp add: string_of_int_def string_of_nat.simps digit_char_def)

lemma tryBody_success:
  assumes "priv_provider this = Some p"
    and "request p (envelope (nextId w) method params) = Inr response"
    and "\<not> isArray response" and "\<not> nullish response"
    and "\<not> truthy (get response ''error'')"
  shows "tryBody deps tx this method params w =
           Some (Inr (JObj [(''result'', response)]), [Sent (envelope (nextId w) method params)],
                 others deps (snd (postinc_nextId w)))"
  using assms by (simp add: tryBody_def Let_def)

lemma tryBody_error:
  assumes "priv_provider this = Some p"
    and "request p (envelope (nextId w) method params) = Inr response"
    and "\<not> isArray response" and "\<not> nullish response"
    and "truthy (get response ''error'')"
  shows "tryBody deps tx this method params w =
           Some (Inl (case classify (get response ''error'') of
                        Inl e \<Rightarrow> e | Inr c \<Rightarrow> thrown (parseRpcError deps) c),
                 [Sent (envelope (nextId w) method params)],
                 others deps (snd (postinc_nextId w)))"
  using assms by (simp add: tryBody_def Let_def split: sum.splits)

lemma getResult_success:
  assumes "tryBody deps tx this method params w = Some (Inr v, evs, w1)"
  shows "getResult deps tx this method params w = Some (Inr v, evs, w1)"
  using assms by (simp add: getResult_def)

lemma getResult_rethrow:
  assumes "tryBody deps tx this method params w = Some (Inl e, evs, w1)"
    and "exn_type e = Inr t" and "t \<noteq> JStr ''TimeoutError''"
  shows "getResult deps tx this method params w = Some (Inl e, evs, w1)"
  using assms by (simp add: getResult_def catchClause_def)

lemma getResult_timeout:
  assumes "tryBody deps tx this method params w = Some (Inl e, evs, w1)"
    and "exn_type e = Inr (JStr ''TimeoutError'')"
  shows "getResult deps tx this method params w =
           Some (Inr JNull,
                 evs @ (if NEAR_NO_LOGS deps then []
                        else [Warned (''Retrying request to '' @ method @ '' as it has timed out'')
                                params]),
                 w1)"
  using assms by (simp add: getResult_def catchClause_def)

lemma backoff_throw:
  assumes "attempt w = Some (Inl e, evs, w1)" and "0 < n"
  shows "exponentialBackoff deps wt n b attempt w = Some (Inl e, evs, w1)"
  using assms by (cases n) simp_all

lemma backoff_result:
  assumes "attempt w = Some (Inr r, evs, w1)" and "r \<noteq> JNull" and "0 < n"
  shows "exponentialBackoff deps wt n b attempt w = Some (Inr r, evs, w1)"
  using assms by (cases n) simp_all

lemma body_throw:
  assumes "getResult deps tx this method params w = Some (Inl e, evs, w1)"
  shows "sendJsonRpc_body deps tx this method params w = Some (Inl e, evs, w1)"
  using assms by (simp add: sendJsonRpc_body_def backoff_throw retry_number_pos)

lemma body_result:
  assumes "getResult deps tx this method params w = Some (Inr (JObj [(''result'', v)]), evs, w1)"
    and "v \<noteq> JUndefined"
  shows "sendJsonRpc_body deps tx this method params w = Some (Inr v, evs, w1)"
  using assms by (cases v) (simp_all add: sendJsonRpc_body_def backoff_result retry_number_pos)

lemma sendJsonRpc_unfold:
  "sendJsonRpc d deps this method params w =
     sendJsonRpc_body deps
       (case d of 0 \<Rightarrow> (\<lambda>txHash accountId w. None)
        | Suc d' \<Rightarrow> txStatusString (sendJsonRpc d' deps this)) this method params w"
  by (cases d) simp_all

lemma sendJsonRpc_success:
  assumes "priv_provider this = Some p"
    and "request p (envelope (nextId w) method params) = Inr response"
    and "\<not> isArray response" and "\<not> nullish response"
    and "\<not> truthy (get response ''error'')"
  shows "sendJsonRpc d deps this method params w =
           Some (Inr response, [Sent (envelope (nextId w) method params)],
                 others deps (snd (postinc_nextId w)))"
proof -
  have "response \<noteq> JUndefined"
    using assms(4) by auto
  then have "sendJsonRpc_body deps tx this method params w =
           Some (Inr response, [Sent (envelope (nextId w) method params)],
                 others deps (snd (postinc_nextId w)))" for tx
    using assms by (simp add: tryBody_success getResult_success body_result)
  then show ?thesis
    by (simp add: sendJsonRpc_unfold)
qed

lemma sendJsonRpc_rethrow:
  assumes "priv_provider this = Some p"
    and "request p (envelope (nextId w) method params) = Inr response"
    and "\<not> isArray response" and "\<not> nullish response"
    and "truthy (get response ''error'')"
    and "classify (get response ''error'') = Inr c"
    and "exn_type (thrown (parseRpcError deps) c) = Inr t"
    and "t \<noteq> JStr ''TimeoutError''"
  shows "sendJsonRpc d deps this method params w =
           Some (Inl (thrown (parseRpcError deps) c), [Sent (envelope (nextId w) method params)],
                 others deps (snd (postinc_nextId w)))"
proof -
  have "getResult deps tx this method params w =
           Some (Inl (thrown (parseRpcError deps) c), [Sent (envelope (nextId w) method params)],
                 others deps (snd (postinc_nextId w)))" for tx
    using assms by (simp add: tryBody_error getResult_rethrow)
  then show ?thesis
    by (simp add: sendJsonRpc_unfold body_throw)
qed

text \<open>
  A call settles at every depth when the transport never answers with an array: only the
  secondary lookups nest.
\<close>

lemma backoff_settles:
  assumes "\<And>v. \<exists>res. attempt v = Some res"
  shows "\<exists>res. exponentialBackoff deps wt n b attempt w = Some res"
proof (induction n arbitrary: wt w)
  case 0
  show ?case by simp
next
  case (Suc n)
  from assms [of w] obtain r evs w1 where a: "attempt w = Some (r, evs, w1)"
    by (metis prod_cases3)
  from Suc [of "wt * b" "others deps w1"] obtain r2 evs2 w2 where
    "exponentialBackoff deps (wt * b) n b attempt (others deps w1) = Some (r2, evs2, w2)"
    by (metis prod_cases3)
  with a show ?case
    by (cases r) simp_all
qed

lemma sendJsonRpc_settles:
  assumes "\<And>p r xs. priv_provider this = Some p \<Longrightarrow> request p r \<noteq> Inr (JArr xs)"
  shows "\<exists>res. sendJsonRpc d deps this method params w = Some res"
proof -
  define tx where "tx = (case d of 0 \<Rightarrow> (\<lambda>txHash accountId w. None)
        | Suc d' \<Rightarrow> txStatusString (sendJsonRpc d' deps this))"
  have t: "\<exists>res. tryBody deps tx this method params v = Some res" for v
  proof (cases "priv_provider this")
    case None
    then show ?thesis by (simp add: tryBody_def)
  next
    case (Some q)
    show ?thesis
    proof (cases "request q (envelope (nextId v) method params)")
      case (Inl e)
      with Some show ?thesis by (simp add: tryBody_def Let_def)
    next
      case (Inr response)
      with assms [OF Some] have "\<not> isArray response"
        by (cases response) auto
      with Some Inr show ?thesis
        by (simp add: tryBody_def Let_def split: sum.splits)
    qed
  qed
  have "\<exists>res. getResult deps tx this method params v = Some res" for v
    using t [of v] by (auto simp: getResult_def split: sum.splits)
  from backoff_settles [of "getResult deps tx this method params", OF this]
  have "\<exists>res. sendJsonRpc_body deps tx this method params w = Some res"
    by (auto simp: sendJsonRpc_body_def split: option.splits sum.splits)
  then show ?thesis
    by (simp add: sendJsonRpc_unfold tx_def)
qed

lemma backoff_numeral:
  "exponentialBackoff deps wt (numeral k) b attempt w =
     (case attempt w of
        None \<Rightarrow> None
      | Some (Inl e, evs, w1) \<Rightarrow> Some (Inl e, evs, w1)
      | Some (Inr result, evs, w1) \<Rightarrow>
          if result = JNull then
            (if pred_numeral k = 0 then Some (Inr (onExhausted deps), evs, w1)
             else
               (case exponentialBackoff deps (wt * b) (pred_numeral k) b attempt
                       (others deps w1) of
                  None \<Rightarrow> None
                | Some (r, evs2, w2) \<Rightarrow> Some (r, evs @ Slept wt # evs2, w2)))
          else Some (Inr result, evs, w1))"
  using exponentialBackoff.simps(2) [of deps wt "pred_numeral k" b attempt w]
  by (simp only: numeral_eq_Suc)

lemmas run_simps =
  sendJsonRpc_body_def REQUEST_RETRY_NUMBER_def REQUEST_RETRY_WAIT_def
  REQUEST_RETRY_WAIT_BACKOFF_def backoff_numeral getResult_def tryBody_def catchClause_def
  txStatusString_def envelope_def postinc_nextId_def initial_world_def Let_def
  provider_of_def wallet_of_def deps0_def deps1_def string_of_int_12


lemma sorted_wrt_subseq:
  "subseq xs ys \<Longrightarrow> sorted_wrt P ys \<Longrightarrow> sorted_wrt P xs"
proof (induction rule: list_emb.induct)
  case (list_emb_Nil ys)
  then show ?case by simp
next
  case (list_emb_Cons xs ys y)
  then show ?case by simp
next
  case (list_emb_Cons2 x y xs ys)
  have "set xs \<subseteq> set ys"
  proof
    fix z assume "z \<in> set xs"
    with list_emb_set [OF list_emb_Cons2.hyps(2) this] show "z \<in> set ys" by auto
  qed
  with list_emb_Cons2 show ?case by auto
qed

section \<open>The error classifier\<close>



text \<open>
  Claim C4. Let the \<^verbatim>\<open>data\<close> of an error payload be an object (an array included). If its
  \<^verbatim>\<open>error_message\<close> and \<^verbatim>\<open>error_type\<close> are both strings, the classifier takes the LegacyTyped
  branch with exactly these two values, and the error thrown carries them; for any other
  object it takes the StructuredParsed branch, and the error thrown is what
  \<^verbatim>\<open>parseRpcError\<close> makes of \<^verbatim>\<open>data\<close>.
\<close>

theorem legacy_classification:
  assumes "js_typeof (get error ''data'') = ''object''" and "get error ''data'' \<noteq> JNull"
  shows "classify error =
           Inr (if js_typeof (get (get error ''data'') ''error_message'') = ''string''
                   \<and> js_typeof (get (get error ''data'') ''error_type'') = ''string''
                then LegacyTyped (get (get error ''data'') ''error_message'')
                       (get (get error ''data'') ''error_type'')
                else StructuredParsed (get error ''data''))
         \<and> thrown parse (LegacyTyped m t) = TypedError m t
         \<and> thrown parse (StructuredParsed (get error ''data'')) = parse (get error ''data'')"
  using assms by (cases "get error ''data''") (simp_all add: classify_def Let_def)

theorem legacy_classification_witness:
  "js_typeof (get legacy_payload ''data'') = ''object''
   \<and> get legacy_payload ''data'' \<noteq> JNull
   \<and> classify legacy_payload
       = Inr (LegacyTyped (JStr ''account does not exist'') (JStr ''AccountDoesNotExist''))
   \<and> thrown parse0 (LegacyTyped (JStr ''account does not exist'') (JStr ''AccountDoesNotExist''))
       = TypedError (JStr ''account does not exist'') (JStr ''AccountDoesNotExist'')"
proof -
  have h: "js_typeof (get legacy_payload ''data'') = ''object''"
    by (simp add: legacy_payload_def)
  have n: "get legacy_payload ''data'' \<noteq> JNull"
    by (simp add: legacy_payload_def)
  show ?thesis
    using h n
      legacy_classification [OF h n, of parse0 "JStr ''account does not exist''"
        "JStr ''AccountDoesNotExist''"]
    by (simp add: legacy_payload_def)
qed

text \<open>
  The Generic branch: for \<^verbatim>\<open>data\<close> absent or a boolean, a number or a string, and none
  of the three timeout conditions, the error thrown carries the composed message and the
  payload's \<^verbatim>\<open>name\<close>.
\<close>

lemma generic_classification:
  assumes "js_typeof (get error ''data'') \<noteq> ''object''"
    and "get error ''data'' \<noteq> JStr ''Timeout''"
    and "\<not> str_includes (errorMessage error) ''Timeout error''"
    and "\<not> str_includes (errorMessage error) ''query has timed out''"
  shows "classify error = Inr (Generic (errorMessage error) (get error ''name''))
         \<and> thrown parse (Generic (errorMessage error) (get error ''name''))
             = TypedError (JStr (errorMessage error)) (get error ''name'')"
  using assms by (simp add: classify_def Let_def)

text \<open>
  Claim C5. The claim counts \<^verbatim>\<open>null\<close> among the scalars. The payload
  \<^verbatim>\<open>{code: -32000, message: "Server error", data: null}\<close> matches none of the timeout
  conditions, and the claim expects a Generic error with the message
  \<^verbatim>\<open>[-32000] Server error: null\<close>. The test of line 428 sends \<^verbatim>\<open>null\<close> down the object
  branch, where line 429 reads a property of it: the classifier throws a TypeError, and so
  does the call.
\<close>

theorem null_data_throws_type_error:
  "classify null_data_payload = Inl JsTypeError
   \<and> errorMessage null_data_payload = ''[-32000] Server error: null''
   \<and> sendJsonRpc 0 deps0 (provider_of (always (JObj [(''error'', null_data_payload)])))
        ''status'' (JArr []) initial_world
     = Some (Inl JsTypeError, [Sent (envelope 123 ''status'' (JArr []))],
             \<lparr>nextId = 124, issued = [123]\<rparr>)"
  by (simp add: run_simps always_def classify_def null_data_payload_def errorMessage_def
        string_of_int_32000)

section \<open>The result of a call\<close>

text \<open>
  Claim C1, as amended. When the transport resolves the first request to an object that is
  not an array and has no \<^verbatim>\<open>error\<close> field, \<^verbatim>\<open>sendJsonRpc\<close> resolves to that object itself
  (line 448 wraps the whole reply as \<^verbatim>\<open>{ result: response }\<close>, and line 462 takes it out
  again), after this one request and no wait.
\<close>

theorem success_returns_reply:
  assumes "priv_provider this = Some p"
    and "request p (envelope (nextId w) method params) = Inr (JObj fs)"
    and "map_of fs ''error'' = None"
  shows "sendJsonRpc d deps this method params w =
           Some (Inr (JObj fs), [Sent (envelope (nextId w) method params)],
                 others deps (snd (postinc_nextId w)))"
  using assms by (simp add: sendJsonRpc_success)

theorem success_returns_reply_witness:
  "priv_provider (provider_of (always status_reply)) = Some (wallet_of (always status_reply))
   \<and> request (wallet_of (always status_reply)) (envelope (nextId initial_world) ''status'' (JArr []))
       = Inr status_reply
   \<and> get status_reply ''error'' = JUndefined
   \<and> sendJsonRpc 0 deps0 (provider_of (always status_reply)) ''status'' (JArr []) initial_world
       = Some (Inr status_reply, [Sent (envelope 123 ''status'' (JArr []))],
               \<lparr>nextId = 124, issued = [123]\<rparr>)"
proof -
  let ?fs = "[(''result'', JObj [(''chain_id'', JStr ''testnet'')])]"
  have b: "priv_provider (provider_of (always status_reply))
             = Some (wallet_of (always status_reply))"
    by (simp add: provider_of_def)
  have r: "request (wallet_of (always status_reply))
             (envelope (nextId initial_world) ''status'' (JArr [])) = Inr (JObj ?fs)"
    by (simp add: wallet_of_def always_def status_reply_def)
  have e: "map_of ?fs ''error'' = None"
    by simp
  show ?thesis
    using b r e success_returns_reply [OF b r e, of 0 deps0]
    by (simp add: status_reply_def deps0_def postinc_nextId_def initial_world_def)
qed

text \<open>
  Claim C1 as stated fails: for the method \<^verbatim>\<open>status\<close>, parameters \<^verbatim>\<open>[]\<close> and the reply
  \<^verbatim>\<open>{result: {chain_id: "testnet"}}\<close> the call resolves to the whole reply, not to its
  \<^verbatim>\<open>result\<close> field \<^verbatim>\<open>{chain_id: "testnet"}\<close>.
\<close>

theorem returns_whole_reply_counterexample:
  "sendJsonRpc 0 deps0 (provider_of (always status_reply)) ''status'' (JArr []) initial_world
     = Some (Inr status_reply, [Sent (envelope 123 ''status'' (JArr []))],
             \<lparr>nextId = 124, issued = [123]\<rparr>)
   \<and> get status_reply ''result'' = JObj [(''chain_id'', JStr ''testnet'')]
   \<and> status_reply \<noteq> get status_reply ''result''"
  by (simp add: run_simps always_def status_reply_def)

text \<open>
  Claim C9, as amended. The code has no check of the envelope: a reply object is handled by
  its \<^verbatim>\<open>error\<close> field alone, whether or not it has a \<^verbatim>\<open>result\<close> field. When \<^verbatim>\<open>error\<close> is absent
  or falsy (so when neither field is there) the call resolves to the whole reply. When
  \<^verbatim>\<open>error\<close> is truthy (so when both fields are there) the attempt throws what the classifier
  makes of \<^verbatim>\<open>error\<close>.
\<close>

theorem reply_handled_by_error_field_alone:
  assumes "priv_provider this = Some p"
    and "request p (envelope (nextId w) method params) = Inr (JObj fs)"
  shows "if truthy (get (JObj fs) ''error'')
         then tryBody deps tx this method params w =
                Some (Inl (case classify (get (JObj fs) ''error'') of
                             Inl e \<Rightarrow> e | Inr c \<Rightarrow> thrown (parseRpcError deps) c),
                      [Sent (envelope (nextId w) method params)],
                      others deps (snd (postinc_nextId w)))
         else sendJsonRpc d deps this method params w =
                Some (Inr (JObj fs), [Sent (envelope (nextId w) method params)],
                      others deps (snd (postinc_nextId w)))"
  using assms by (simp add: sendJsonRpc_success tryBody_error)

theorem reply_handled_by_error_field_alone_witness:
  "priv_provider (provider_of (always (JObj []))) = Some (wallet_of (always (JObj [])))
   \<and> request (wallet_of (always (JObj []))) (envelope (nextId initial_world) ''status'' (JArr []))
       = Inr (JObj [])
   \<and> sendJsonRpc 0 deps0 (provider_of (always (JObj []))) ''status'' (JArr []) initial_world
       = Some (Inr (JObj []), [Sent (envelope 123 ''status'' (JArr []))],
               \<lparr>nextId = 124, issued = [123]\<rparr>)"
proof -
  have b: "priv_provider (provider_of (always (JObj []))) = Some (wallet_of (always (JObj [])))"
    by (simp add: provider_of_def)
  have r: "request (wallet_of (always (JObj [])))
             (envelope (nextId initial_world) ''status'' (JArr [])) = Inr (JObj [])"
    by (simp add: wallet_of_def always_def)
  show ?thesis
    using b r reply_handled_by_error_field_alone [OF b r, of deps0 undefined 0]
    by (simp add: deps0_def postinc_nextId_def initial_world_def)
qed

text \<open>
  Claim C9 as stated fails: the reply \<^verbatim>\<open>{}\<close> has neither a \<^verbatim>\<open>result\<close> nor an \<^verbatim>\<open>error\<close> field,
  and the call succeeds with it; and to the reply
  \<^verbatim>\<open>{result: {chain_id: "testnet"}, error: {... data: {error_message, error_type}}}\<close>, which
  has both, the call fails with the legacy error of the \<^verbatim>\<open>error\<close> field.
\<close>

theorem no_envelope_check_counterexample:
  "sendJsonRpc 0 deps0 (provider_of (always (JObj []))) ''status'' (JArr []) initial_world
     = Some (Inr (JObj []), [Sent (envelope 123 ''status'' (JArr []))],
             \<lparr>nextId = 124, issued = [123]\<rparr>)
   \<and> sendJsonRpc 0 deps0
        (provider_of (always (JObj [(''result'', JObj [(''chain_id'', JStr ''testnet'')]),
                                    (''error'', legacy_payload)])))
        ''status'' (JArr []) initial_world
     = Some (Inl (TypedError (JStr ''account does not exist'') (JStr ''AccountDoesNotExist'')),
             [Sent (envelope 123 ''status'' (JArr []))],
             \<lparr>nextId = 124, issued = [123]\<rparr>)"
  by (simp add: run_simps always_def legacy_payload_def classify_def)

section \<open>Retries\<close>

text \<open>
  Claim C6, as amended. The catch clause decides by the \<^verbatim>\<open>type\<close> of the error thrown, not by
  the branch of the classifier. When the first reply is an error reply whose classified
  error has a \<^verbatim>\<open>type\<close> other than \<^verbatim>\<open>'TimeoutError'\<close>, \<^verbatim>\<open>sendJsonRpc\<close> rejects with that error
  after this one request: no wait, no further attempt. When the \<^verbatim>\<open>type\<close> is \<^verbatim>\<open>'TimeoutError'\<close>,
  whichever branch the error comes from, the attempt yields \<^verbatim>\<open>null\<close>, which asks the loop for
  a retry.
\<close>

theorem no_retry_unless_timeout_type:
  assumes "priv_provider this = Some p"
    and "request p (envelope (nextId w) method params) = Inr response"
    and "\<not> isArray response" and "\<not> nullish response"
    and "truthy (get response ''error'')"
    and "classify (get response ''error'') = Inr c"
    and "exn_type (thrown (parseRpcError deps) c) = Inr t"
  shows "if t = JStr ''TimeoutError''
         then getResult deps tx this method params w =
                Some (Inr JNull,
                      Sent (envelope (nextId w) method params)
                      # (if NEAR_NO_LOGS deps then []
                         else [Warned (''Retrying request to '' @ method @ '' as it has timed out'')
                                 params]),
                      others deps (snd (postinc_nextId w)))
         else sendJsonRpc d deps this method params w =
                Some (Inl (thrown (parseRpcError deps) c),
                      [Sent (envelope (nextId w) method params)],
                      others deps (snd (postinc_nextId w)))"
proof (cases "t = JStr ''TimeoutError''")
  case True
  have "tryBody deps tx this method params w =
          Some (Inl (thrown (parseRpcError deps) c), [Sent (envelope (nextId w) method params)],
                others deps (snd (postinc_nextId w)))"
    using assms by (simp add: tryBody_error)
  with True assms(7) show ?thesis
    by (simp add: getResult_timeout)
next
  case False
  with assms show ?thesis
    by (simp add: sendJsonRpc_rethrow)
qed

theorem no_retry_unless_timeout_type_witness:
  "classify legacy_payload
     = Inr (LegacyTyped (JStr ''account does not exist'') (JStr ''AccountDoesNotExist''))
   \<and> sendJsonRpc 0 deps0 (provider_of (always (JObj [(''error'', legacy_payload)]))) ''status''
        (JArr []) initial_world
     = Some (Inl (TypedError (JStr ''account does not exist'') (JStr ''AccountDoesNotExist'')),
             [Sent (envelope 123 ''status'' (JArr []))],
             \<lparr>nextId = 124, issued = [123]\<rparr>)"
proof -
  let ?reply = "JObj [(''error'', legacy_payload)]"
  let ?c = "LegacyTyped (JStr ''account does not exist'') (JStr ''AccountDoesNotExist'')"
  have b: "priv_provider (provider_of (always ?reply)) = Some (wallet_of (always ?reply))"
    by (simp add: provider_of_def)
  have r: "request (wallet_of (always ?reply))
             (envelope (nextId initial_world) ''status'' (JArr [])) = Inr ?reply"
    by (simp add: wallet_of_def always_def)
  have a: "\<not> isArray ?reply" and n: "\<not> nullish ?reply"
    by simp_all
  have t: "truthy (get ?reply ''error'')"
    by (simp add: legacy_payload_def)
  have c: "classify (get ?reply ''error'') = Inr ?c"
    by (simp add: legacy_payload_def classify_def)
  have e: "exn_type (thrown (parseRpcError deps0) ?c) = Inr (JStr ''AccountDoesNotExist'')"
    by simp
  show ?thesis
    using c no_retry_unless_timeout_type [OF b r a n t c e, of undefined 0]
    by (simp add: deps0_def postinc_nextId_def initial_world_def)
qed

text \<open>
  Claim C6 as stated fails: the payload with
  \<^verbatim>\<open>data: {error_message: "took too long", error_type: "TimeoutError"}\<close> is classified
  LegacyTyped, the error thrown has the type \<^verbatim>\<open>'TimeoutError'\<close>, and the call warns, waits
  500 ms and sends a second request, to which the transport answers with a result.
\<close>

theorem legacy_timeout_type_is_retried:
  "classify legacy_timeout_payload
     = Inr (LegacyTyped (JStr ''took too long'') (JStr ''TimeoutError''))
   \<and> sendJsonRpc 0 deps0 (provider_of legacy_timeout_once) ''status'' (JArr []) initial_world
     = Some (Inr (JObj [(''chain_id'', JStr ''testnet'')]),
             [Sent (envelope 123 ''status'' (JArr [])),
              Warned ''Retrying request to status as it has timed out'' (JArr []),
              Slept 500,
              Sent (envelope 124 ''status'' (JArr []))],
             \<lparr>nextId = 125, issued = [123, 124]\<rparr>)"
  by (simp add: run_simps legacy_timeout_once_def legacy_timeout_payload_def classify_def)

text \<open>
  Claim C2. The transport answers \<^verbatim>\<open>signAndSendTransaction\<close> with the array \<^verbatim>\<open>["H9k2"]\<close> and
  the lookup \<^verbatim>\<open>tx\<close> with a status. The call does send the lookup, with the hash and the
  account of the instance; but line 425 stores its result under \<^verbatim>\<open>reesult\<close>, line 462 reads
  \<^verbatim>\<open>result\<close>, and the call rejects with \<^verbatim>\<open>RetriesExceeded\<close> after a single attempt.
\<close>

theorem array_reply_ends_in_retries_exceeded:
  "sendJsonRpc 1 deps0 (provider_of hash_then_status) ''signAndSendTransaction''
       (JArr [JStr ''dHg5'']) initial_world
     = Some (Inl (TypedError (JStr ''Exceeded 12 attempts for request to signAndSendTransaction.'')
                    (JStr ''RetriesExceeded'')),
             [Sent (envelope 123 ''signAndSendTransaction'' (JArr [JStr ''dHg5''])),
              Sent (envelope 124 ''tx'' (JArr [JStr ''H9k2'', JStr ''alice.testnet'']))],
             \<lparr>nextId = 125, issued = [123, 124]\<rparr>)"
  by (simp add: run_simps hash_then_status_def)

text \<open>
  The same for every array reply and every lookup that succeeds: the result of the lookup is
  lost, whatever it is.
\<close>

lemma array_reply_loses_lookup_result:
  assumes "priv_provider this = Some p"
    and "request p (envelope (nextId w) method params) = Inr (JArr xs)"
    and "sendJsonRpc d deps this ''tx'' (JArr [index0 (JArr xs), JStr (priv_account this)])
           (others deps (snd (postinc_nextId w))) = Some (Inr txStatus, evs, w1)"
  shows "sendJsonRpc (Suc d) deps this method params w =
           Some (Inl (TypedError (JStr (''Exceeded 12 attempts for request to '' @ method @ ''.''))
                        (JStr ''RetriesExceeded'')),
                 Sent (envelope (nextId w) method params) # evs, w1)"
proof -
  let ?tx = "txStatusString (sendJsonRpc d deps this)"
  have "tryBody deps ?tx this method params w =
          Some (Inr (JObj [(''reesult'', txStatus)]),
                Sent (envelope (nextId w) method params) # evs, w1)"
    using assms by (simp add: tryBody_def Let_def txStatusString_def)
  then have "getResult deps ?tx this method params w =
          Some (Inr (JObj [(''reesult'', txStatus)]),
                Sent (envelope (nextId w) method params) # evs, w1)"
    by (rule getResult_success)
  then have "exponentialBackoff deps REQUEST_RETRY_WAIT REQUEST_RETRY_NUMBER
               REQUEST_RETRY_WAIT_BACKOFF (getResult deps ?tx this method params) w =
          Some (Inr (JObj [(''reesult'', txStatus)]),
                Sent (envelope (nextId w) method params) # evs, w1)"
    by (simp add: backoff_result retry_number_pos)
  then show ?thesis
    by (simp add: sendJsonRpc_body_def REQUEST_RETRY_NUMBER_def string_of_int_12)
qed

text \<open>
  A timed-out attempt yields \<^verbatim>\<open>null\<close>, and a loop whose attempts all yield \<^verbatim>\<open>null\<close> makes
  every one of them.
\<close>

lemma getResult_timeout_reply:
  assumes "priv_provider this = Some p"
    and "request p (envelope (nextId w) method params) = Inr response"
    and "timeout_reply response"
  shows "getResult deps tx this method params w =
           Some (Inr JNull,
                 Sent (envelope (nextId w) method params)
                 # (if NEAR_NO_LOGS deps then []
                    else [Warned (''Retrying request to '' @ method @ '' as it has timed out'')
                            params]),
                 others deps (snd (postinc_nextId w)))"
proof -
  have "tryBody deps tx this method params w =
          Some (Inl (TypedError (JStr (errorMessage (get response ''error'')))
                       (JStr ''TimeoutError'')),
                [Sent (envelope (nextId w) method params)],
                others deps (snd (postinc_nextId w)))"
    using assms by (simp add: tryBody_error timeout_reply_def)
  then show ?thesis
    by (simp add: getResult_timeout)
qed

lemma sent_append [simp]: "sent (xs @ ys) = sent xs @ sent ys"
  by (induction xs rule: sent.induct) simp_all

lemma backoff_exhausted:
  assumes "\<And>w. \<exists>evs w1. attempt w = Some (Inr JNull, evs, w1) \<and> length (sent evs) = 1"
  shows "\<exists>evs w1. exponentialBackoff deps wt (Suc n) b attempt w
                     = Some (Inr (onExhausted deps), evs, w1)
           \<and> length (sent evs) = Suc n"
proof (induction n arbitrary: wt w)
  case 0
  from assms [of w] show ?case by auto
next
  case (Suc n)
  from assms [of w] obtain evs w1 where a: "attempt w = Some (Inr JNull, evs, w1)"
    and l: "length (sent evs) = 1" by blast
  from Suc.IH [of "wt * b" "others deps w1"] obtain evs2 w2 where
    r: "exponentialBackoff deps (wt * b) (Suc n) b attempt (others deps w1)
          = Some (Inr (onExhausted deps), evs2, w2)"
    and l2: "length (sent evs2) = Suc n" by blast
  have "exponentialBackoff deps wt (Suc (Suc n)) b attempt w
          = Some (Inr (onExhausted deps), evs @ Slept wt # evs2, w2)"
    using a r
    by (simp del: exponentialBackoff.simps(2) add: exponentialBackoff.simps(2) [of _ _ "Suc n"])
  then show ?case using l l2 by simp
qed

lemma timeout_reply_example: "timeout_reply (JObj [(''error'', timeout_payload)])"
proof -
  have "get timeout_payload ''data'' = JStr ''Timeout''" and "truthy timeout_payload"
    by (simp_all add: timeout_payload_def)
  then show ?thesis
    by (simp add: timeout_reply_def classify_def)
qed

text \<open>
  Twelve timed-out attempts use the loop up, and the call returns. Line 462 destructures
  what the loop resolves to, before the test of line 467: the call rejects with a
  TypeError when that value is \<^verbatim>\<open>null\<close> or \<^verbatim>\<open>undefined\<close>, with \<^verbatim>\<open>RetriesExceeded\<close> (the message
  names the method and the ceiling 12) when it can be destructured and has no \<^verbatim>\<open>result\<close>,
  and resolves to its \<^verbatim>\<open>result\<close> otherwise. Exactly twelve requests were sent.
\<close>

lemma timeouts_exhaust_the_loop:
  assumes "priv_provider this = Some p"
    and "\<And>r. \<exists>response. request p r = Inr response \<and> timeout_reply response"
  shows "\<exists>evs w1. sendJsonRpc d deps this method params w =
           Some (if nullish (onExhausted deps) then Inl JsTypeError
                 else if get (onExhausted deps) ''result'' = JUndefined
                 then Inl (TypedError
                             (JStr (''Exceeded 12 attempts for request to '' @ method @ ''.''))
                             (JStr ''RetriesExceeded''))
                 else Inr (get (onExhausted deps) ''result''),
                 evs, w1)
           \<and> length (sent evs) = 12"
proof -
  define tx where "tx = (case d of 0 \<Rightarrow> (\<lambda>txHash accountId w. None)
        | Suc d' \<Rightarrow> txStatusString (sendJsonRpc d' deps this))"
  have att: "\<exists>evs w1. getResult deps tx this method params v = Some (Inr JNull, evs, w1)
                \<and> length (sent evs) = 1" for v
  proof -
    from assms(2) obtain response where
      "request p (envelope (nextId v) method params) = Inr response" "timeout_reply response"
      by blast
    from getResult_timeout_reply [OF assms(1) this, of deps tx] show ?thesis
      by auto
  qed
  have "REQUEST_RETRY_NUMBER = Suc 11"
    by (simp add: REQUEST_RETRY_NUMBER_def)
  with backoff_exhausted [of "getResult deps tx this method params" deps REQUEST_RETRY_WAIT 11
      REQUEST_RETRY_WAIT_BACKOFF w, OF att]
  obtain evs w1 where
    e: "exponentialBackoff deps REQUEST_RETRY_WAIT REQUEST_RETRY_NUMBER REQUEST_RETRY_WAIT_BACKOFF
          (getResult deps tx this method params) w = Some (Inr (onExhausted deps), evs, w1)"
    and l: "length (sent evs) = 12"
    by auto
  have u: "js_typeof v = ''undefined'' \<longleftrightarrow> v = JUndefined" for v
    by (cases v) simp_all
  from e have "sendJsonRpc_body deps tx this method params w =
           Some (if nullish (onExhausted deps) then Inl JsTypeError
                 else if get (onExhausted deps) ''result'' = JUndefined
                 then Inl (TypedError
                             (JStr (''Exceeded 12 attempts for request to '' @ method @ ''.''))
                             (JStr ''RetriesExceeded''))
                 else Inr (get (onExhausted deps) ''result''),
                 evs, w1)"
    by (simp add: sendJsonRpc_body_def REQUEST_RETRY_NUMBER_def string_of_int_12 u)
  with l show ?thesis
    unfolding tx_def sendJsonRpc_unfold [symmetric] by blast
qed

text \<open>
  Claim C7. The transport answers every request with
  \<^verbatim>\<open>{error: {code: -32000, message: "timeout", data: "Timeout"}}\<close>. Each of the twelve attempts
  throws a \<^verbatim>\<open>TimeoutError\<close>, which the catch clause turns into \<^verbatim>\<open>null\<close> (line 456), so when the
  attempts are used up the loop has been handed nothing but \<^verbatim>\<open>null\<close>. Resolving to it, the
  loop gives line 462 a \<^verbatim>\<open>null\<close> to destructure: the call does return after exactly twelve
  requests, but it rejects with a TypeError, and the \<^verbatim>\<open>RetriesExceeded\<close> of line 468 is not
  reached.
\<close>

theorem twelve_timeouts_end_in_type_error:
  "map_option fst always_timeout_run = Some (Inl JsTypeError)
   \<and> map_option (length \<circ> sent \<circ> fst \<circ> snd) always_timeout_run = Some 12"
proof -
  let ?reply = "JObj [(''error'', timeout_payload)]"
  have b: "priv_provider (provider_of (always ?reply)) = Some (wallet_of (always ?reply))"
    by (simp add: provider_of_def)
  have r: "\<exists>response. request (wallet_of (always ?reply)) r = Inr response
             \<and> timeout_reply response" for r
    by (simp add: wallet_of_def always_def timeout_reply_example)
  have n: "nullish (onExhausted deps_null)"
    by (simp add: deps_null_def deps0_def)
  from timeouts_exhaust_the_loop [OF b r, of 0 deps_null "''status''" "JArr []" initial_world] n
  obtain evs w1 where
    e: "always_timeout_run = Some (Inl JsTypeError, evs, w1)" and l: "length (sent evs) = 12"
    by (auto simp: always_timeout_run_def)
  show ?thesis
    unfolding e using l by simp
qed

text \<open>
  With a loop that resolves to an object without a \<^verbatim>\<open>result\<close>, the same transport ends the
  call in \<^verbatim>\<open>RetriesExceeded\<close>.
\<close>

lemma retries_exceeded_when_exhausted_to_object:
  "\<exists>evs w1.
     sendJsonRpc 0 deps0 (provider_of (always (JObj [(''error'', timeout_payload)]))) ''status''
       (JArr []) initial_world
     = Some (Inl (TypedError (JStr ''Exceeded 12 attempts for request to status.'')
                    (JStr ''RetriesExceeded'')), evs, w1)
     \<and> length (sent evs) = 12"
proof -
  let ?reply = "JObj [(''error'', timeout_payload)]"
  have b: "priv_provider (provider_of (always ?reply)) = Some (wallet_of (always ?reply))"
    by (simp add: provider_of_def)
  have r: "\<exists>response. request (wallet_of (always ?reply)) r = Inr response
             \<and> timeout_reply response" for r
    by (simp add: wallet_of_def always_def timeout_reply_example)
  from timeouts_exhaust_the_loop [OF b r, of 0 deps0 "''status''" "JArr []" initial_world]
  show ?thesis
    by (simp add: deps0_def)
qed

section \<open>Request ids\<close>

lemma ids_simps [simp]:
  "ids [] = []"
  "ids (Sent r # evs) = id' r # ids evs"
  "ids (Slept t # evs) = ids evs"
  "ids (Warned m v # evs) = ids evs"
  "ids (xs @ ys) = ids xs @ ids ys"
  by (simp_all add: ids_def)

lemma fresh_ids_refl: "fresh_ids w [] w"
  by (simp add: fresh_ids_def)

lemma fresh_ids_trans:
  assumes "fresh_ids w evs1 w1" and "fresh_ids w1 evs2 w2"
  shows "fresh_ids w (evs1 @ evs2) w2"
proof -
  have le: "nextId w \<le> nextId w1" "nextId w1 \<le> nextId w2"
    using assms by (simp_all add: fresh_ids_def)
  have split: "[nextId w ..< nextId w2] = [nextId w ..< nextId w1] @ [nextId w1 ..< nextId w2]"
    using le by (metis le_Suc_ex upt_add_eq_append)
  show ?thesis
  proof (cases "nextId w2 < 2 ^ 53")
    case True
    then have "nextId w1 < 2 ^ 53"
      using le by simp
    then show ?thesis
      using assms True le split
      by (simp add: fresh_ids_def list_emb_append_mono)
  next
    case False
    then show ?thesis
      using le by (simp add: fresh_ids_def)
  qed
qed

lemma fresh_ids_postinc:
  "fresh_ids w [Sent (envelope (nextId w) method params)] (snd (postinc_nextId w))"
  by (simp add: fresh_ids_def postinc_nextId_def envelope_def)

lemma fresh_ids_postinc_other: "fresh_ids w [] (snd (postinc_nextId w))"
  by (simp add: fresh_ids_def postinc_nextId_def)

lemma fresh_ids_funpow: "fresh_ids w [] (((\<lambda>v. snd (postinc_nextId v)) ^^ k) w)"
proof (induction k)
  case 0
  show ?case by (simp add: fresh_ids_refl)
next
  case (Suc k)
  from fresh_ids_trans [OF Suc fresh_ids_postinc_other] show ?case by simp
qed

lemma fresh_ids_others:
  assumes "others_take_ids deps"
  shows "fresh_ids w [] (others deps w)"
proof -
  from assms obtain k where "others deps w = ((\<lambda>v. snd (postinc_nextId v)) ^^ k) w"
    unfolding others_take_ids_def by blast
  then show ?thesis
    by (simp add: fresh_ids_funpow)
qed

lemma fresh_ids_request:
  assumes "others_take_ids deps"
  shows "fresh_ids w [Sent (envelope (nextId w) method params)]
           (others deps (snd (postinc_nextId w)))"
  using fresh_ids_trans [OF fresh_ids_postinc fresh_ids_others [OF assms]] by simp

lemma fresh_ids_same_ids:
  assumes "fresh_ids w evs w1" and "ids evs' = ids evs"
  shows "fresh_ids w evs' w1"
  using assms by (simp add: fresh_ids_def)

lemma tryBody_fresh_ids:
  assumes o: "others_take_ids deps"
    and tx: "\<And>h a v r evs v1. tx h a v = Some (r, evs, v1) \<Longrightarrow> fresh_ids v evs v1"
    and run: "tryBody deps tx this method params w = Some (r, evs, w1)"
  shows "fresh_ids w evs w1"
proof (cases "priv_provider this")
  case None
  with run show ?thesis
    by (auto simp: tryBody_def fresh_ids_refl)
next
  case (Some p)
  let ?req = "envelope (nextId w) method params"
  let ?w = "others deps (snd (postinc_nextId w))"
  have first: "fresh_ids w [Sent ?req] ?w"
    by (rule fresh_ids_request [OF o])
  show ?thesis
  proof (cases "request p ?req")
    case (Inl e)
    with run Some first show ?thesis
      by (auto simp: tryBody_def Let_def)
  next
    case (Inr response)
    show ?thesis
    proof (cases "isArray response")
      case False
      with run Some Inr first show ?thesis
        by (auto simp: tryBody_def Let_def split: if_splits sum.splits)
    next
      case True
      with run Some Inr obtain r2 evs2 where
        nested: "tx (index0 response) (priv_account this) ?w = Some (r2, evs2, w1)"
        and evs: "evs = Sent ?req # evs2"
        by (auto simp: tryBody_def Let_def split: option.splits sum.splits)
      from fresh_ids_trans [OF first tx [OF nested]] evs show ?thesis
        by simp
    qed
  qed
qed

lemma getResult_fresh_ids:
  assumes o: "others_take_ids deps"
    and tx: "\<And>h a v r evs v1. tx h a v = Some (r, evs, v1) \<Longrightarrow> fresh_ids v evs v1"
    and run: "getResult deps tx this method params w = Some (r, evs, w1)"
  shows "fresh_ids w evs w1"
proof -
  from run obtain r0 evs0 where
    t: "tryBody deps tx this method params w = Some (r0, evs0, w1)" and "ids evs = ids evs0"
    by (auto simp: getResult_def catchClause_def split: option.splits sum.splits if_splits)
  have "fresh_ids w evs0 w1"
    by (rule tryBody_fresh_ids [OF o _ t]) (rule tx)
  with \<open>ids evs = ids evs0\<close> show ?thesis
    by (simp add: fresh_ids_same_ids)
qed

lemma backoff_fresh_ids:
  assumes o: "others_take_ids deps"
    and att: "\<And>v r evs v1. attempt v = Some (r, evs, v1) \<Longrightarrow> fresh_ids v evs v1"
  shows "exponentialBackoff deps wt n b attempt w = Some (r, evs, w1) \<Longrightarrow> fresh_ids w evs w1"
proof (induction n arbitrary: wt w r evs w1)
  case 0
  then show ?case by (simp add: fresh_ids_refl)
next
  case (Suc n)
  from Suc.prems obtain r0 evs0 w0 where a: "attempt w = Some (r0, evs0, w0)"
    by (auto split: option.splits)
  note f0 = att [OF a]
  show ?case
  proof (cases "r0 = Inr JNull \<and> n \<noteq> 0")
    case False
    with Suc.prems a f0 show ?thesis
      by (auto split: sum.splits if_splits)
  next
    case True
    with Suc.prems a obtain evs2 where
      rest: "exponentialBackoff deps (wt * b) n b attempt (others deps w0) = Some (r, evs2, w1)"
      and evs: "evs = evs0 @ Slept wt # evs2"
      by (auto split: option.splits)
    have "fresh_ids w0 evs2 w1"
      using fresh_ids_trans [OF fresh_ids_others [OF o] Suc.IH [OF rest]] by simp
    from fresh_ids_trans [OF f0 this] have "fresh_ids w (evs0 @ evs2) w1" .
    then show ?thesis
      using evs by (simp add: fresh_ids_same_ids)
  qed
qed

lemma body_fresh_ids:
  assumes o: "others_take_ids deps"
    and tx: "\<And>h a v r evs v1. tx h a v = Some (r, evs, v1) \<Longrightarrow> fresh_ids v evs v1"
    and run: "sendJsonRpc_body deps tx this method params w = Some (r, evs, w1)"
  shows "fresh_ids w evs w1"
proof -
  from run obtain r0 where
    "exponentialBackoff deps REQUEST_RETRY_WAIT REQUEST_RETRY_NUMBER REQUEST_RETRY_WAIT_BACKOFF
       (getResult deps tx this method params) w = Some (r0, evs, w1)"
    by (auto simp: sendJsonRpc_body_def split: option.splits sum.splits if_splits)
  moreover have "fresh_ids v evs2 v1"
    if "getResult deps tx this method params v = Some (r2, evs2, v1)" for v r2 evs2 v1
    by (rule getResult_fresh_ids [OF o _ that]) (rule tx)
  ultimately show ?thesis
    by (rule backoff_fresh_ids [OF o, rotated])
qed

lemma sendJsonRpc_fresh_ids:
  assumes o: "others_take_ids deps"
  shows "sendJsonRpc d deps this m ps w = Some (r, evs, w1) \<Longrightarrow> fresh_ids w evs w1"
proof (induction d arbitrary: m ps w r evs w1)
  case 0
  then show ?case
    by (auto intro: body_fresh_ids [OF o, rotated])
next
  case (Suc d)
  from Suc.prems have
    "sendJsonRpc_body deps (txStatusString (sendJsonRpc d deps this)) this m ps w
       = Some (r, evs, w1)"
    by simp
  then show ?case
  proof (rule body_fresh_ids [OF o, rotated])
    fix h a v r2 evs2 v1
    assume "txStatusString (sendJsonRpc d deps this) h a v = Some (r2, evs2, v1)"
    then show "fresh_ids v evs2 v1"
      by (simp add: txStatusString_def Suc.IH)
  qed
qed

lemma tryBody_stamps:
  assumes "priv_provider this = Some p"
    and "tryBody deps tx this m ps w = Some (r, evs, w1)"
  shows "\<exists>rest. evs = Sent (envelope (nextId w) m ps) # rest"
  using assms
  by (auto simp: tryBody_def Let_def split: sum.splits if_splits option.splits)

lemma others_take_ids_deps1: "others_take_ids deps1"
proof -
  have "\<exists>k. snd (postinc_nextId w) = ((\<lambda>v. snd (postinc_nextId v)) ^^ k) w" for w
    by (rule exI [of _ 1]) simp
  then show ?thesis
    by (simp add: others_take_ids_def deps1_def)
qed

text \<open>
  Claim C8. The counter \<open>nextId\<close> belongs to the module, not to an instance. Let the other
  calls in flight touch it only by taking ids, as this one does, and let it stay below
  \<open>2 ^ 53\<close>, where the increment is exact. Then over a call of \<^verbatim>\<open>sendJsonRpc\<close>, retries and
  the secondary lookup included, the ids handed out in the process, to this call and to
  the others, are the consecutive values of the counter, each once; the ids of the requests
  of this call are among them in the order sent, hence strictly increasing and distinct;
  and the history of the process stays strictly increasing. Every attempt on an instance
  with a transport begins by sending a request stamped with the value the counter has then.
\<close>

theorem request_ids_fresh_and_unique:
  assumes "others_take_ids deps"
    and "history_ok w"
    and "sendJsonRpc d deps this method params w = Some (r, evs, w1)"
    and "nextId w1 < 2 ^ 53"
  shows "issued w1 = issued w @ [nextId w ..< nextId w1]
         \<and> subseq (ids evs) [nextId w ..< nextId w1]
         \<and> sorted_wrt (<) (ids evs) \<and> distinct (ids evs)
         \<and> history_ok w1
         \<and> (\<forall>tx m ps v r2 evs2 v2.
               priv_provider this \<noteq> None
               \<and> tryBody deps tx this m ps v = Some (r2, evs2, v2)
               \<longrightarrow> (\<exists>rest. evs2 = Sent (envelope (nextId v) m ps) # rest))"
proof -
  from sendJsonRpc_fresh_ids [OF assms(1,3)] assms(4)
  have i: "issued w1 = issued w @ [nextId w ..< nextId w1]"
    and s: "subseq (ids evs) [nextId w ..< nextId w1]"
    and le: "nextId w \<le> nextId w1"
    by (simp_all add: fresh_ids_def)
  from s have o: "sorted_wrt (<) (ids evs)"
    by (rule sorted_wrt_subseq) simp
  then have "distinct (ids evs)"
    using strict_sorted_iff by blast
  moreover have "history_ok w1"
    using assms(2) i le by (auto simp: history_ok_def sorted_wrt_append)
  moreover have "\<exists>rest. evs2 = Sent (envelope (nextId v) m ps) # rest"
    if "priv_provider this \<noteq> None" and "tryBody deps tx this m ps v = Some (r2, evs2, v2)"
    for tx m ps v r2 evs2 v2
    using that tryBody_stamps by fastforce
  ultimately show ?thesis
    using i s o by blast
qed

theorem request_ids_fresh_and_unique_witness:
  "others_take_ids deps1
   \<and> history_ok initial_world
   \<and> sendJsonRpc 0 deps1 (provider_of legacy_timeout_once) ''status'' (JArr []) initial_world
       = Some (Inr (JObj [(''chain_id'', JStr ''testnet'')]),
               [Sent (envelope 123 ''status'' (JArr [])), Slept 500,
                Sent (envelope 126 ''status'' (JArr []))],
               \<lparr>nextId = 128, issued = [123, 124, 125, 126, 127]\<rparr>)
   \<and> ids [Sent (envelope 123 ''status'' (JArr [])), Slept 500,
           Sent (envelope 126 ''status'' (JArr []))] = [123, 126]
   \<and> subseq [123, 126] [123 ..< 128]
   \<and> history_ok \<lparr>nextId = 128, issued = [123, 124, 125, 126, 127]\<rparr>"
proof -
  let ?evs = "[Sent (envelope 123 ''status'' (JArr [])), Slept 500,
               Sent (envelope 126 ''status'' (JArr []))]"
  let ?w1 = "\<lparr>nextId = 128, issued = [123, 124, 125, 126, 127]\<rparr>"
  have h: "history_ok initial_world"
    by (simp add: history_ok_def initial_world_def)
  have run: "sendJsonRpc 0 deps1 (provider_of legacy_timeout_once) ''status'' (JArr [])
               initial_world
             = Some (Inr (JObj [(''chain_id'', JStr ''testnet'')]), ?evs, ?w1)"
    by (simp add: run_simps legacy_timeout_once_def legacy_timeout_payload_def classify_def)
  have b: "nextId ?w1 < 2 ^ 53"
    by simp
  have i: "ids ?evs = [123, 126]"
    by (simp add: envelope_def)
  from request_ids_fresh_and_unique [OF others_take_ids_deps1 h run b] i
  have s: "subseq [123, 126] [123 ..< 128]" and k: "history_ok ?w1"
    by (simp_all add: initial_world_def)
  show ?thesis
    by (intro conjI others_take_ids_deps1 h run i s k)
qed

section \<open>The bound transport\<close>

lemma new_WalletRpcProvider_binds:
  assumes "new_WalletRpcProvider provider = Inr this"
  shows "priv_provider this = provider \<and> provider \<noteq> None"
  using assms by (auto simp: new_WalletRpcProvider_def split: option.splits)

lemma init_keeps_provider:
  assumes "init d deps this w = Some (r, evs, this1, w1)"
  shows "priv_provider this1 = priv_provider this"
  using assms by (auto simp: init_def split: option.splits sum.splits if_splits)

lemma step_keeps_provider:
  assumes "step d deps c (this, w) = Some (this1, w1)"
  shows "priv_provider this1 = priv_provider this"
  using assms
  by (cases c)
     (auto simp: updateNetwork_def updateAccount_def init_keeps_provider split: option.splits)

lemma run_keeps_provider:
  "run d deps cs (this, w) = Some (this1, w1) \<Longrightarrow> priv_provider this1 = priv_provider this"
proof (induction cs arbitrary: this w)
  case Nil
  then show ?case by simp
next
  case (Cons c cs)
  from Cons.prems obtain this2 w2 where
    s: "step d deps c (this, w) = Some (this2, w2)"
    and r: "run d deps cs (this2, w2) = Some (this1, w1)"
    by (auto split: option.splits)
  from Cons.IH [OF r] step_keeps_provider [OF s] show ?case by simp
qed

lemma tryBody_bound_sends:
  assumes "priv_provider this = Some p"
    and "tryBody deps tx this method params w = Some (r, evs, w1)"
  shows "evs \<noteq> []"
  using assms
  by (auto simp: tryBody_def Let_def split: sum.splits if_splits option.splits)

lemma getResult_bound_sends:
  assumes "priv_provider this = Some p"
    and "getResult deps tx this method params w = Some (r, evs, w1)"
  shows "evs \<noteq> []"
  using assms
  by (auto simp: getResult_def split: sum.splits option.splits dest: tryBody_bound_sends)

lemma backoff_sends:
  assumes "\<And>r evs w1. attempt w = Some (r, evs, w1) \<Longrightarrow> evs \<noteq> []"
    and "exponentialBackoff deps wt (Suc n) b attempt w = Some (r, evs, w1)"
  shows "evs \<noteq> []"
  using assms(2) assms(1)
  by (auto split: option.splits sum.splits if_splits)

lemma sendJsonRpc_bound_sends:
  assumes "priv_provider this = Some p"
    and "sendJsonRpc d deps this method params w = Some (r, evs, w1)"
  shows "evs \<noteq> []"
proof -
  define tx where "tx = (case d of 0 \<Rightarrow> (\<lambda>txHash accountId w. None)
        | Suc d' \<Rightarrow> txStatusString (sendJsonRpc d' deps this))"
  from assms(2) have "sendJsonRpc_body deps tx this method params w = Some (r, evs, w1)"
    by (simp add: sendJsonRpc_unfold tx_def)
  then obtain r0 where
    "exponentialBackoff deps REQUEST_RETRY_WAIT (Suc 11) REQUEST_RETRY_WAIT_BACKOFF
       (getResult deps tx this method params) w = Some (r0, evs, w1)"
    by (auto simp: sendJsonRpc_body_def REQUEST_RETRY_NUMBER_def
             split: option.splits sum.splits if_splits)
  then show ?thesis
    by (rule backoff_sends [rotated]) (rule getResult_bound_sends [OF assms(1)])
qed

lemma sendJsonRpc_unbound:
  assumes "priv_provider this = None"
  shows "sendJsonRpc d deps this method params w
           = Some (Inl (JsError ''Provider not exist''), [], w)"
proof -
  have "getResult deps tx this method params w
          = Some (Inl (JsError ''Provider not exist''), [], w)" for tx
    using assms by (simp add: getResult_def tryBody_def catchClause_def)
  then show ?thesis
    by (simp add: sendJsonRpc_unfold body_throw)
qed

text \<open>
  Claim C10. Let an instance be constructed, and let any operations follow: \<^verbatim>\<open>init\<close>, wallet
  events, calls of \<^verbatim>\<open>sendJsonRpc\<close>. Its transport is still the one the constructor was given,
  and it is not \<^verbatim>\<open>null\<close>. No attempt and no call on it ends in line 450: that branch throws
  \<^verbatim>\<open>Error('Provider not exist')\<close> before any request is sent, and on this instance every
  attempt sends one.
\<close>

theorem constructed_instance_keeps_transport:
  assumes "new_WalletRpcProvider provider = Inr this0"
    and "run d deps calls (this0, w0) = Some (this, w)"
  shows "priv_provider this = provider \<and> provider \<noteq> None
         \<and> (\<forall>d' deps' tx method params v.
               tryBody deps' tx this method params v
                 \<noteq> Some (Inl (JsError ''Provider not exist''), [], v)
               \<and> sendJsonRpc d' deps' this method params v
                 \<noteq> Some (Inl (JsError ''Provider not exist''), [], v))"
proof -
  from new_WalletRpcProvider_binds [OF assms(1)] run_keeps_provider [OF assms(2)]
  obtain p where p: "priv_provider this = provider" "provider = Some p"
    by auto
  then have b: "priv_provider this = Some p"
    by simp
  show ?thesis
    using p tryBody_bound_sends [OF b] sendJsonRpc_bound_sends [OF b] by blast
qed

theorem constructed_instance_keeps_transport_witness:
  "new_WalletRpcProvider (Some (wallet_of (always (JObj [(''chain_id'', JStr ''testnet'')]))))
     = Inr \<lparr>priv_provider = Some (wallet_of (always (JObj [(''chain_id'', JStr ''testnet'')]))),
            priv_network = JStr [], priv_account = [], priv_pubKeys = []\<rparr>
   \<and> run 0 deps0 [Init, UpdateAccount ''bob.testnet'' [''ed25519:8hSH''],
                   SendJsonRpc ''gas_price'' (JArr [JNull])]
        (\<lparr>priv_provider = Some (wallet_of (always (JObj [(''chain_id'', JStr ''testnet'')]))),
          priv_network = JStr [], priv_account = [], priv_pubKeys = []\<rparr>, initial_world)
     = Some (\<lparr>priv_provider = Some (wallet_of (always (JObj [(''chain_id'', JStr ''testnet'')]))),
              priv_network = JStr ''testnet'', priv_account = ''bob.testnet'',
              priv_pubKeys = [''ed25519:8hSH'']\<rparr>,
             \<lparr>nextId = 125, issued = [123, 124]\<rparr>)
   \<and> (\<forall>v. sendJsonRpc 0 deps0
              \<lparr>priv_provider = Some (wallet_of (always (JObj [(''chain_id'', JStr ''testnet'')]))),
               priv_network = JStr ''testnet'', priv_account = ''bob.testnet'',
               priv_pubKeys = [''ed25519:8hSH'']\<rparr> ''status'' (JArr []) v
            \<noteq> Some (Inl (JsError ''Provider not exist''), [], v))"
proof -
  let ?p = "wallet_of (always (JObj [(''chain_id'', JStr ''testnet'')]))"
  let ?a = "\<lparr>priv_provider = Some ?p, priv_network = JStr [], priv_account = [],
                 priv_pubKeys = []\<rparr>"
  let ?b = "\<lparr>priv_provider = Some ?p, priv_network = JStr ''testnet'',
                priv_account = ''bob.testnet'', priv_pubKeys = [''ed25519:8hSH'']\<rparr>"
  have c: "new_WalletRpcProvider (Some ?p) = Inr ?a"
    by (simp add: new_WalletRpcProvider_def) (simp add: wallet_of_def)
  have r: "run 0 deps0 [Init, UpdateAccount ''bob.testnet'' [''ed25519:8hSH''],
                        SendJsonRpc ''gas_price'' (JArr [JNull])] (?a, initial_world)
           = Some (?b, \<lparr>nextId = 125, issued = [123, 124]\<rparr>)"
    by (simp add: run_simps init_def status_def updateAccount_def always_def)
  from constructed_instance_keeps_transport [OF c r]
  have n: "\<forall>v. sendJsonRpc 0 deps0 ?b ''status'' (JArr []) v
               \<noteq> Some (Inl (JsError ''Provider not exist''), [], v)"
    by blast
  show ?thesis
    by (intro conjI c r n)
qed

end
